theory Spec2Isabelle
  imports Main "HOL-Library.Sublist" "HOL-Library.AList"
begin

section \<open>JavaScript values of \<^verbatim>\<open>src/inngest/functions.ts\<close>\<close>

text \<open>
  Strings are character lists. An awaited call either resolves to a value (\<open>Inr\<close>) or throws
  (\<open>Inl\<close>); the thrown value is kept as the text that \<^verbatim>\<open>"Error: " + e\<close> and a template
  literal render it to.
\<close>

type_synonym path = string
type_synonym content = string
type_synonym 'a awaited = "string + 'a"

text \<open>\<^verbatim>\<open>String.prototype.includes\<close>: the search string occurs at some position.\<close>

fun str_includes :: "string \<Rightarrow> string \<Rightarrow> bool" where
  "str_includes [] search = (search = [])"
| "str_includes (c # cs) search = (prefix search (c # cs) \<or> str_includes cs search)"

text \<open>\<^verbatim>\<open>Array.prototype.join\<close> on strings.\<close>

fun join :: "string \<Rightarrow> string list \<Rightarrow> string" where
  "join sep [] = []"
| "join sep [x] = x"
| "join sep (x # y # ys) = x @ sep @ join sep (y # ys)"

text \<open>
  \<^verbatim>\<open>JSON.stringify\<close> on an array of \<^verbatim>\<open>{ path, content }\<close> objects: strings are quoted, the
  quote, the backslash and the control characters are escaped.
\<close>

definition hexdigit :: "nat \<Rightarrow> char" where
  "hexdigit n = ''0123456789abcdef'' ! (n mod 16)"

definition QuoteJSONChar :: "char \<Rightarrow> string" where
  "QuoteJSONChar c =
     (if c = CHR 0x08 then [CHR 0x5C, CHR ''b'']
      else if c = CHR 0x09 then [CHR 0x5C, CHR ''t'']
      else if c = CHR 0x0A then [CHR 0x5C, CHR ''n'']
      else if c = CHR 0x0C then [CHR 0x5C, CHR ''f'']
      else if c = CHR 0x0D then [CHR 0x5C, CHR ''r'']
      else if c = CHR 0x22 then [CHR 0x5C, CHR 0x22]
      else if c = CHR 0x5C then [CHR 0x5C, CHR 0x5C]
      else if (of_char c :: nat) < 0x20
        then [CHR 0x5C, CHR ''u'', CHR ''0'', CHR ''0'',
              hexdigit (of_char c div 16), hexdigit (of_char c)]
      else [c])"

definition QuoteJSONString :: "string \<Rightarrow> string" where
  "QuoteJSONString s = [CHR 0x22] @ concat (map QuoteJSONChar s) @ [CHR 0x22]"

definition JSON_stringify_entry :: "path \<times> content \<Rightarrow> string" where
  "JSON_stringify_entry e =
     ''{'' @ QuoteJSONString ''path'' @ '':'' @ QuoteJSONString (fst e) @ '','' @
     QuoteJSONString ''content'' @ '':'' @ QuoteJSONString (snd e) @ ''}''"

definition JSON_stringify :: "(path \<times> content) list \<Rightarrow> string" where
  "JSON_stringify contents = ''['' @ join '','' (map JSON_stringify_entry contents) @ '']''"

section \<open>The sandbox collaborator\<close>

text \<open>
  The sandbox is an external service. The tool handlers are written against its calls
  only, so the calls are a parameter of the model: each takes the sandbox's state and
  returns what the awaited call gives together with the state it leaves behind.
  \<open>commands_run\<close> also returns the chunks it hands to the two stream callbacks, in the
  order it hands them over.
\<close>

datatype stream_event = onStdout string | onStderr string

record CommandResult =
  stdout :: string
  stderr :: string
  exitCode :: int

record 'sb sandbox_api =
  getSandbox :: "'sb \<Rightarrow> unit awaited \<times> 'sb"
  files_write :: "path \<Rightarrow> content \<Rightarrow> 'sb \<Rightarrow> unit awaited \<times> 'sb"
  files_read :: "path \<Rightarrow> 'sb \<Rightarrow> content awaited \<times> 'sb"
  commands_run :: "string \<Rightarrow> 'sb \<Rightarrow> stream_event list \<times> CommandResult awaited \<times> 'sb"
  getHost :: "'sb \<Rightarrow> string"

text \<open>
  A reference sandbox, used to run the handlers on concrete inputs. It follows the
  capability set the spec lists for the sandbox collaborator (write a file, read a file,
  run a command) and its time-to-live: every file or command call uses up one unit of the
  remaining lifetime, and once none is left every call fails. Commands are looked up in
  a table of scripted behaviours.
\<close>

record sim_sandbox =
  sim_fs :: "(path \<times> content) list"
  sim_ttl :: nat
  sim_commands :: "(string \<times> stream_event list \<times> CommandResult awaited) list"

definition sim_getSandbox :: "sim_sandbox \<Rightarrow> unit awaited \<times> sim_sandbox" where
  "sim_getSandbox s = (if sim_ttl s = 0 then (Inl ''Error: sandbox expired'', s) else (Inr (), s))"

definition sim_write :: "path \<Rightarrow> content \<Rightarrow> sim_sandbox \<Rightarrow> unit awaited \<times> sim_sandbox" where
  "sim_write p c s =
     (if sim_ttl s = 0 then (Inl ''Error: sandbox expired'', s)
      else (Inr (), s\<lparr>sim_fs := AList.update p c (sim_fs s), sim_ttl := sim_ttl s - 1\<rparr>))"

definition sim_read :: "path \<Rightarrow> sim_sandbox \<Rightarrow> content awaited \<times> sim_sandbox" where
  "sim_read p s =
     (if sim_ttl s = 0 then (Inl ''Error: sandbox expired'', s)
      else case map_of (sim_fs s) p of
             None \<Rightarrow> (Inl ''Error: file not found'', s\<lparr>sim_ttl := sim_ttl s - 1\<rparr>)
           | Some c \<Rightarrow> (Inr c, s\<lparr>sim_ttl := sim_ttl s - 1\<rparr>))"

definition sim_run ::
  "string \<Rightarrow> sim_sandbox \<Rightarrow> stream_event list \<times> CommandResult awaited \<times> sim_sandbox" where
  "sim_run command s =
     (if sim_ttl s = 0 then ([], Inl ''Error: sandbox expired'', s)
      else case map_of (sim_commands s) command of
             None \<Rightarrow> ([], Inl ''Error: command not found'', s\<lparr>sim_ttl := sim_ttl s - 1\<rparr>)
           | Some (events, res) \<Rightarrow> (events, res, s\<lparr>sim_ttl := sim_ttl s - 1\<rparr>))"

definition sim_api :: "sim_sandbox sandbox_api" where
  "sim_api = \<lparr>getSandbox = sim_getSandbox, files_write = sim_write, files_read = sim_read,
              commands_run = sim_run, getHost = (\<lambda>s. ''3000-sandbox.example'')\<rparr>"

section \<open>Agent state\<close>

text \<open>
  \<^verbatim>\<open>interface AgentState { summary: string; files: { [path: string]: string } }\<close>.
  The files are a plain JavaScript object used as a dictionary. It is modelled by the list
  of its own properties in the order in which \<^verbatim>\<open>Object.keys\<close> gives them: first the keys
  that are array indices, by ascending value, then all other keys in the order in which
  they were made.
\<close>

type_synonym files_object = "(path \<times> content) list"

text \<open>
  An array index is the decimal text, without a leading zero, of a whole number below
  \<open>2\<^sup>3\<^sup>2 - 1\<close>.
\<close>

definition is_digit :: "char \<Rightarrow> bool" where
  "is_digit c = ((48::nat) \<le> of_char c \<and> (of_char c :: nat) \<le> 57)"

definition decimal :: "string \<Rightarrow> nat" where
  "decimal s = foldl (\<lambda>n c. 10 * n + (of_char c - 48)) 0 s"

definition array_index :: "string \<Rightarrow> nat option" where
  "array_index k =
     (if k \<noteq> [] \<and> list_all is_digit k \<and> (k = ''0'' \<or> hd k \<noteq> CHR ''0'') \<and>
         decimal k < 4294967295
      then Some (decimal k) else None)"

text \<open>A new array-index key goes in front of the first key that is no smaller array index.\<close>

fun insert_index :: "nat \<Rightarrow> path \<Rightarrow> content \<Rightarrow> files_object \<Rightarrow> files_object" where
  "insert_index n k v [] = [(k, v)]"
| "insert_index n k v (p # ps) =
     (case array_index (fst p) of
        None \<Rightarrow> (k, v) # p # ps
      | Some m \<Rightarrow> if m < n then p # insert_index n k v ps else (k, v) # p # ps)"

text \<open>
  The assignment \<^verbatim>\<open>obj[k] = v\<close> of a string \<open>v\<close>. The key \<^verbatim>\<open>__proto__\<close> is the
  accessor that every plain object inherits: its setter takes objects only, so assigning
  a string to it changes nothing and makes no property. A key the object has keeps its
  place and takes the new value; a new key is put in by the order of the keys.
\<close>

definition assign :: "path \<Rightarrow> content \<Rightarrow> files_object \<Rightarrow> files_object" where
  "assign k v obj =
     (if k = ''__proto__'' then obj
      else if k \<in> fst ` set obj then AList.update k v obj
      else case array_index k of
             None \<Rightarrow> obj @ [(k, v)]
           | Some n \<Rightarrow> insert_index n k v obj)"

record AgentState =
  summary :: string
  files :: files_object

text \<open>The state of one run and the sandbox it works on.\<close>

record 'sb world =
  data :: AgentState
  sandbox :: 'sb

text \<open>\<^verbatim>\<open>createState<AgentState>({ summary: "", files: {} }, ...)\<close>\<close>

definition createState :: "'sb \<Rightarrow> 'sb world" where
  "createState sb = \<lparr>data = \<lparr>summary = [], files = []\<rparr>, sandbox = sb\<rparr>"

text \<open>\<^verbatim>\<open>network.state.data.files\<close>\<close>

definition state_files :: "'sb world \<Rightarrow> files_object" where
  "state_files w = files (data w)"

section \<open>The tools of the coding agent\<close>

text \<open>
  Every handler runs its body through \<^verbatim>\<open>step?.run(name, async () => ...)\<close>. The step
  tools are optional in the handler's options: without them the call yields
  \<^verbatim>\<open>undefined\<close> and the body never runs.

  With them, the body is a step of a durable function (\<^verbatim>\<open>inngest.createFunction\<close>). The
  invocation that runs the body ends with it: the body's output is recorded, and the
  function is run again from its start with the recorded output in the place of the
  call. So the rest of a run sees of a step its output and what it did to the sandbox,
  which is a service of its own, and nothing of what it did to objects in memory. An
  output that is an object comes back as a copy of what it held when the body returned.
\<close>

subsection \<open>\<^verbatim>\<open>terminal\<close>\<close>

record buffers =
  buf_stdout :: string
  buf_stderr :: string

text \<open>The two callbacks: \<^verbatim>\<open>buffers.stdout += data\<close> and \<^verbatim>\<open>buffers.stderr += data\<close>.\<close>

fun on_event :: "buffers \<Rightarrow> stream_event \<Rightarrow> buffers" where
  "on_event b (onStdout d) = b\<lparr>buf_stdout := buf_stdout b @ d\<rparr>"
| "on_event b (onStderr d) = b\<lparr>buf_stderr := buf_stderr b @ d\<rparr>"

text \<open>
  The template literal of the catch block. \<^verbatim>\<open>\s\<close> is not an escape sequence of
  JavaScript, so it stands for the letter \<^verbatim>\<open>s\<close>; \<^verbatim>\<open>\n\<close> is a line feed.
\<close>

definition command_failed :: "string \<Rightarrow> buffers \<Rightarrow> string" where
  "command_failed e b =
     ''Command failed: '' @ e @ '' stdout: '' @ buf_stdout b @ [CHR 0x0A] @ ''stderr: '' @ buf_stderr b"

definition terminal ::
  "'sb sandbox_api \<Rightarrow> bool \<Rightarrow> string \<Rightarrow> 'sb world \<Rightarrow> string option \<times> 'sb world" where
  "terminal api step command w =
     (if \<not> step then (None, w)
      else
        let b0 = \<lparr>buf_stdout = [], buf_stderr = []\<rparr> in
        case getSandbox api (sandbox w) of
          (Inl e, sb) \<Rightarrow> (Some (command_failed e b0), w\<lparr>sandbox := sb\<rparr>)
        | (Inr _, sb) \<Rightarrow>
            (case commands_run api command sb of
               (events, res, sb') \<Rightarrow>
                 let b = foldl on_event b0 events in
                 (case res of
                    Inr result \<Rightarrow> (Some (stdout result), w\<lparr>sandbox := sb'\<rparr>)
                  | Inl e \<Rightarrow> (Some (command_failed e b), w\<lparr>sandbox := sb'\<rparr>))))"

subsection \<open>\<^verbatim>\<open>createOrUpdateFiles\<close>\<close>

text \<open>
  The loop \<^verbatim>\<open>for (const fileItem of file)\<close>: write the entry to the sandbox, then assign
  it in \<open>updatedFiles\<close>. A write that throws leaves the loop. Within the step
  \<open>updatedFiles\<close> is the files object as the step's invocation holds it; the model
  carries its properties along.
\<close>

fun write_loop ::
  "'sb sandbox_api \<Rightarrow> files_object \<Rightarrow> (path \<times> content) list \<Rightarrow> 'sb world \<Rightarrow>
   files_object awaited \<times> 'sb world" where
  "write_loop api updatedFiles [] w = (Inr updatedFiles, w)"
| "write_loop api updatedFiles (fileItem # rest) w =
     (case files_write api (fst fileItem) (snd fileItem) (sandbox w) of
        (Inl e, sb) \<Rightarrow> (Inl e, w\<lparr>sandbox := sb\<rparr>)
      | (Inr _, sb) \<Rightarrow>
          write_loop api (assign (fst fileItem) (snd fileItem) updatedFiles) rest
            (w\<lparr>sandbox := sb\<rparr>))"

text \<open>
  The body of the step, with its output and the world it leaves to the rest of the run:
  the state as it was and the sandbox as the calls left it. In
  \<^verbatim>\<open>network.state.data.files || {}\<close> the left side is an object, which is truthy, so it is
  what \<open>updatedFiles\<close> starts as. The output is \<open>updatedFiles\<close> on success and the text
  \<^verbatim>\<open>"Error: " + e\<close> on failure.
\<close>

definition createOrUpdateFiles_step ::
  "'sb sandbox_api \<Rightarrow> (path \<times> content) list \<Rightarrow> 'sb world \<Rightarrow>
   (string + files_object) \<times> 'sb world" where
  "createOrUpdateFiles_step api file w =
     (let updatedFiles = files (data w) in
      case getSandbox api (sandbox w) of
        (Inl e, sb) \<Rightarrow> (Inl (''Error: '' @ e), w\<lparr>sandbox := sb\<rparr>)
      | (Inr _, sb) \<Rightarrow>
          (case write_loop api updatedFiles file (w\<lparr>sandbox := sb\<rparr>) of
             (Inl e, w') \<Rightarrow> (Inl (''Error: '' @ e), w')
           | (Inr newFiles, w') \<Rightarrow> (Inr newFiles, w')))"

text \<open>
  The handler: \<^verbatim>\<open>if (typeof newFiles === "object") network.state.data.files = newFiles\<close>.
  An error text has type \<^verbatim>\<open>"string"\<close> and \<^verbatim>\<open>undefined\<close> has type \<^verbatim>\<open>"undefined"\<close>.
\<close>

definition createOrUpdateFiles ::
  "'sb sandbox_api \<Rightarrow> bool \<Rightarrow> (path \<times> content) list \<Rightarrow> 'sb world \<Rightarrow> 'sb world" where
  "createOrUpdateFiles api step file w =
     (if \<not> step then w
      else case createOrUpdateFiles_step api file w of
             (Inr newFiles, w') \<Rightarrow> w'\<lparr>data := (data w')\<lparr>files := newFiles\<rparr>\<rparr>
           | (Inl err, w') \<Rightarrow> w')"

subsection \<open>\<^verbatim>\<open>readFiles\<close>\<close>

fun read_loop ::
  "'sb sandbox_api \<Rightarrow> path list \<Rightarrow> (path \<times> content) list \<Rightarrow> 'sb \<Rightarrow>
   (path \<times> content) list awaited \<times> 'sb" where
  "read_loop api [] contents sb = (Inr contents, sb)"
| "read_loop api (file # rest) contents sb =
     (case files_read api file sb of
        (Inl e, sb') \<Rightarrow> (Inl e, sb')
      | (Inr c, sb') \<Rightarrow> read_loop api rest (contents @ [(file, c)]) sb')"

definition readFiles ::
  "'sb sandbox_api \<Rightarrow> bool \<Rightarrow> path list \<Rightarrow> 'sb world \<Rightarrow> string option \<times> 'sb world" where
  "readFiles api step fs w =
     (if \<not> step then (None, w)
      else
        case getSandbox api (sandbox w) of
          (Inl e, sb) \<Rightarrow> (Some (''Error: '' @ e), w\<lparr>sandbox := sb\<rparr>)
        | (Inr _, sb) \<Rightarrow>
            (case read_loop api fs [] sb of
               (Inl e, sb') \<Rightarrow> (Some (''Error: '' @ e), w\<lparr>sandbox := sb'\<rparr>)
             | (Inr contents, sb') \<Rightarrow> (Some (JSON_stringify contents), w\<lparr>sandbox := sb'\<rparr>)))"

section \<open>Completion detection and routing\<close>

text \<open>
  \<^verbatim>\<open>lifecycle.onResponse\<close>. Its first argument is what
  \<^verbatim>\<open>lastAssistantTextMessageContent(result)\<close> gives: the text of the last assistant
  message of the turn, or \<^verbatim>\<open>undefined\<close>. Its second argument is the network's state data,
  absent when the agent runs outside a network. A text is truthy when it is not empty.
\<close>

definition onResponse :: "string option \<Rightarrow> AgentState option \<Rightarrow> AgentState option" where
  "onResponse lastAssistantMessageText network =
     (case lastAssistantMessageText of
        None \<Rightarrow> network
      | Some t \<Rightarrow>
          (case network of
             None \<Rightarrow> None
           | Some d \<Rightarrow>
               if t \<noteq> [] \<and> str_includes t ''<task_summary>''
               then Some (d\<lparr>summary := t\<rparr>)
               else Some d))"

text \<open>The router: no agent once the summary is truthy, the coding agent otherwise.\<close>

datatype agent_name = codeAgent

definition router :: "AgentState \<Rightarrow> agent_name option" where
  "router d = (let s = summary d in if s \<noteq> [] then None else Some codeAgent)"

definition maxIter :: nat where
  "maxIter = 15"

section \<open>The orchestration loop\<close>

text \<open>
  One turn of the agent is a list of tool calls and the final assistant text, if any.
  The model's answer is not code: the agent is a parameter that gives the turn for each
  value of the iteration counter and each state it is handed.
\<close>

datatype tool_call =
    call_terminal string
  | call_createOrUpdateFiles "(path \<times> content) list"
  | call_readFiles "path list"

record turn =
  tool_calls :: "tool_call list"
  lastAssistantText :: "string option"

text \<open>Inside the function the step tools exist, so every handler gets them.\<close>

fun invoke_tool :: "'sb sandbox_api \<Rightarrow> 'sb world \<Rightarrow> tool_call \<Rightarrow> 'sb world" where
  "invoke_tool api w (call_terminal command) = snd (terminal api True command w)"
| "invoke_tool api w (call_createOrUpdateFiles file) = createOrUpdateFiles api True file w"
| "invoke_tool api w (call_readFiles fs) = snd (readFiles api True fs w)"

text \<open>
  Modelled from the spec: the network of the agent framework (\<^verbatim>\<open>createNetwork\<close>,
  \<^verbatim>\<open>network.run\<close>) is a library outside the sources. Section 4.4 of the spec gives its
  state machine. AGENT_EXECUTING: the agent's tool calls run in order against the shared
  state. COMPLETION_CHECK: the completion detector runs on the turn's final text and
  the counter goes up by one. TURN_PENDING: the router is asked; without an agent the
  loop is DONE. When the counter reaches the cap the loop is DONE whatever the summary.
\<close>

definition agent_turn :: "'sb sandbox_api \<Rightarrow> turn \<Rightarrow> 'sb world \<Rightarrow> 'sb world" where
  "agent_turn api t w =
     (let w1 = foldl (invoke_tool api) w (tool_calls t) in
      case onResponse (lastAssistantText t) (Some (data w1)) of
        None \<Rightarrow> w1
      | Some d \<Rightarrow> w1\<lparr>data := d\<rparr>)"

text \<open>
  The states at the turn boundaries, from the one the loop starts in to the one it is
  DONE in; one turn lies between two neighbours.
\<close>

function network_trace ::
  "nat \<Rightarrow> 'sb sandbox_api \<Rightarrow> (nat \<Rightarrow> 'sb world \<Rightarrow> turn) \<Rightarrow> nat \<Rightarrow> 'sb world \<Rightarrow> 'sb world list" where
  "network_trace cap api agent counter w =
     (if router (data w) = None then [w]
      else if cap \<le> Suc counter then [w, agent_turn api (agent counter w) w]
      else w # network_trace cap api agent (Suc counter) (agent_turn api (agent counter w) w))"
  by pat_completeness auto
termination
  by (relation "measure (\<lambda>(cap, api, agent, counter, w). cap - counter)") auto

declare network_trace.simps [simp del]

definition network_run ::
  "nat \<Rightarrow> 'sb sandbox_api \<Rightarrow> (nat \<Rightarrow> 'sb world \<Rightarrow> turn) \<Rightarrow> 'sb world \<Rightarrow> 'sb world" where
  "network_run cap api agent w = last (network_trace cap api agent 0 w)"

definition turns_taken ::
  "nat \<Rightarrow> 'sb sandbox_api \<Rightarrow> (nat \<Rightarrow> 'sb world \<Rightarrow> turn) \<Rightarrow> 'sb world \<Rightarrow> nat" where
  "turns_taken cap api agent w = length (network_trace cap api agent 0 w) - 1"

section \<open>After the loop\<close>

text \<open>
  The output of the two single-shot generators is a list of messages. The content of a
  text message is a string or an array of text parts.
\<close>

datatype message_content = Text string | Parts "string list"

datatype Message = TextMessage message_content | ToolCallMessage | ToolResultMessage

text \<open>
  \<^verbatim>\<open>content.map((txt) => txt).join("")\<close> joins the parts themselves, not their texts, and
  a part is an object: each one is rendered as \<^verbatim>\<open>[object Object]\<close>. Reading
  \<^verbatim>\<open>output[0].type\<close> of an empty output throws.
\<close>

definition join_parts :: "string list \<Rightarrow> string" where
  "join_parts parts = join [] (map (\<lambda>txt. ''[object Object]'') parts)"

definition generateFragmentTitle :: "Message list \<Rightarrow> string awaited" where
  "generateFragmentTitle fragmentTitleOutput =
     (case fragmentTitleOutput of
        [] \<Rightarrow> Inl ''TypeError: Cannot read properties of undefined''
      | ToolCallMessage # _ \<Rightarrow> Inr ''Fragment''
      | ToolResultMessage # _ \<Rightarrow> Inr ''Fragment''
      | TextMessage (Parts parts) # _ \<Rightarrow> Inr (join_parts parts)
      | TextMessage (Text s) # _ \<Rightarrow> Inr s)"

definition generateResponse :: "Message list \<Rightarrow> string awaited" where
  "generateResponse responseOutput =
     (case responseOutput of
        [] \<Rightarrow> Inl ''TypeError: Cannot read properties of undefined''
      | ToolCallMessage # _ \<Rightarrow> Inr ''Here you go!''
      | ToolResultMessage # _ \<Rightarrow> Inr ''Here you go!''
      | TextMessage (Parts parts) # _ \<Rightarrow> Inr (join_parts parts)
      | TextMessage (Text s) # _ \<Rightarrow> Inr s)"

definition isError :: "'sb world \<Rightarrow> bool" where
  "isError result = (summary (data result) = [] \<or> length (map fst (state_files result)) = 0)"

datatype MessageRole = USER | ASSISTANT

datatype MessageType = RESULT | ERROR

record Fragment =
  sandboxUrl :: string
  frag_title :: string
  frag_files :: files_object

record MessageCreate =
  projectId :: string
  msg_content :: string
  msg_role :: MessageRole
  msg_type :: MessageType
  fragment :: "Fragment option"

text \<open>The data handed to \<^verbatim>\<open>prisma.message.create\<close> in the step \<^verbatim>\<open>save-result\<close>.\<close>

definition save_result ::
  "string \<Rightarrow> bool \<Rightarrow> Message list \<Rightarrow> Message list \<Rightarrow> string \<Rightarrow> files_object \<Rightarrow>
   MessageCreate awaited" where
  "save_result pid isErr responseOutput fragmentTitleOutput url fs =
     (if isErr
      then Inr \<lparr>projectId = pid, msg_content = ''Something went wrong. Please try again.'',
                msg_role = ASSISTANT, msg_type = ERROR, fragment = None\<rparr>
      else
        case generateResponse responseOutput of
          Inl e \<Rightarrow> Inl e
        | Inr response \<Rightarrow>
            (case generateFragmentTitle fragmentTitleOutput of
               Inl e \<Rightarrow> Inl e
             | Inr t \<Rightarrow>
                 Inr \<lparr>projectId = pid, msg_content = response, msg_role = ASSISTANT,
                      msg_type = RESULT,
                      fragment = Some \<lparr>sandboxUrl = url, frag_title = t, frag_files = fs\<rparr>\<rparr>))"

text \<open>What the function returns: \<^verbatim>\<open>{ url, title, files, summary }\<close>.\<close>

record RunResult =
  url :: string
  title :: string
  ret_files :: files_object
  ret_summary :: string

text \<open>
  The collaborators of one run that are not code: the coding agent's turns, the two
  generators, and whether the record store accepts the message.
\<close>

record 'sb collaborators =
  codeAgent_run :: "nat \<Rightarrow> 'sb world \<Rightarrow> turn"
  fragmentTitleGenerator_run :: "string \<Rightarrow> Message list awaited"
  responseGenerator_run :: "string \<Rightarrow> Message list awaited"
  message_create :: "MessageCreate \<Rightarrow> unit awaited"

text \<open>
  The function from \<^verbatim>\<open>network.run\<close> on, for the sandbox \<open>sb0\<close> that the first step made.
  It gives the record that was stored and the value that is returned, or the error that
  ended the run.
\<close>

definition codeAgentFunction ::
  "'sb sandbox_api \<Rightarrow> 'sb collaborators \<Rightarrow> string \<Rightarrow> 'sb \<Rightarrow> (MessageCreate \<times> RunResult) awaited" where
  "codeAgentFunction api ext pid sb0 =
     (let result = network_run maxIter api (codeAgent_run ext) (createState sb0) in
      case fragmentTitleGenerator_run ext (summary (data result)) of
        Inl e \<Rightarrow> Inl e
      | Inr fragmentTitleOutput \<Rightarrow>
      (case responseGenerator_run ext (summary (data result)) of
        Inl e \<Rightarrow> Inl e
      | Inr responseOutput \<Rightarrow>
      (let isErr = isError result in
       case getSandbox api (sandbox result) of
         (Inl e, sb) \<Rightarrow> Inl e
       | (Inr _, sb) \<Rightarrow>
       (let sandboxUrl = ''http://'' @ getHost api sb in
        case save_result pid isErr responseOutput fragmentTitleOutput sandboxUrl
               (state_files result) of
          Inl e \<Rightarrow> Inl e
        | Inr saved \<Rightarrow>
        (case message_create ext saved of
           Inl e \<Rightarrow> Inl e
         | Inr _ \<Rightarrow>
             Inr (saved,
                  \<lparr>url = sandboxUrl, title = ''Fragment'',
                   ret_files = state_files result,
                   ret_summary = summary (data result)\<rparr>))))))"

section \<open>Notions the properties are stated with\<close>

text \<open>What the two callbacks of a command have been handed, stream by stream.\<close>

fun stdout_chunks :: "stream_event list \<Rightarrow> string" where
  "stdout_chunks [] = []"
| "stdout_chunks (onStdout d # es) = d @ stdout_chunks es"
| "stdout_chunks (onStderr d # es) = stdout_chunks es"

fun stderr_chunks :: "stream_event list \<Rightarrow> string" where
  "stderr_chunks [] = []"
| "stderr_chunks (onStdout d # es) = stderr_chunks es"
| "stderr_chunks (onStderr d # es) = d @ stderr_chunks es"









section \<open>Scenarios\<close>

text \<open>A fresh reference sandbox with a given lifetime and two scripted commands.\<close>

definition sim_fresh :: "nat \<Rightarrow> sim_sandbox" where
  "sim_fresh ttl =
     \<lparr>sim_fs = [], sim_ttl = ttl,
      sim_commands =
        [(''ls'', [onStdout ''app.js'', onStderr ''warn''],
            Inr \<lparr>stdout = ''app.js'', stderr = ''warn'', exitCode = 0\<rparr>),
         (''false'', [onStdout ''partial'', onStderr ''failed''],
            Inl ''CommandExitError: exit status 1'')]\<rparr>"

text \<open>An agent that never calls a tool and never says anything.\<close>

definition idle_agent :: "nat \<Rightarrow> 'sb world \<Rightarrow> turn" where
  "idle_agent n w = \<lparr>tool_calls = [], lastAssistantText = None\<rparr>"

text \<open>An agent that writes a file and reports progress in every turn, and never finishes.\<close>

definition busy_agent :: "nat \<Rightarrow> 'sb world \<Rightarrow> turn" where
  "busy_agent n w =
     \<lparr>tool_calls = [call_createOrUpdateFiles [(''notes.txt'', ''draft'')]],
      lastAssistantText = Some ''Still working.''\<rparr>"

text \<open>
  The agent of the last scenario of the spec: it writes \<^verbatim>\<open>app.js\<close> in its first turn
  and gives the summary in its second.
\<close>

definition todo_agent :: "nat \<Rightarrow> 'sb world \<Rightarrow> turn" where
  "todo_agent n w =
     (if n = 0
      then \<lparr>tool_calls = [call_createOrUpdateFiles [(''app.js'', ''render()'')]],
            lastAssistantText = None\<rparr>
      else \<lparr>tool_calls = [],
            lastAssistantText = Some ''<task_summary>Built a todo app</task_summary>''\<rparr>)"

definition reply_with :: "string \<Rightarrow> string \<Rightarrow> Message list awaited" where
  "reply_with answer prompt = Inr [TextMessage (Text answer)]"

definition accept_message :: "MessageCreate \<Rightarrow> unit awaited" where
  "accept_message m = Inr ()"

definition idle_collaborators :: "'sb collaborators" where
  "idle_collaborators =
     \<lparr>codeAgent_run = idle_agent, fragmentTitleGenerator_run = reply_with ''Untitled'',
      responseGenerator_run = reply_with ''Nothing was built.'', message_create = accept_message\<rparr>"

definition todo_collaborators :: "'sb collaborators" where
  "todo_collaborators =
     \<lparr>codeAgent_run = todo_agent, fragmentTitleGenerator_run = reply_with ''Todo App'',
      responseGenerator_run = reply_with ''I built a todo app.'', message_create = accept_message\<rparr>"

section \<open>Properties\<close>

subsection \<open>Assignment and the write loop\<close>




lemma write_loop_data: "data (snd (write_loop api fs entries w)) = data w"
  by (induction entries arbitrary: fs w) (auto split: prod.splits sum.splits)

lemma write_loop_data_eq: "write_loop api fs entries w = (res, w') \<Longrightarrow> data w' = data w"
  using write_loop_data [of api fs entries w] by simp




subsection \<open>Substrings\<close>

lemma str_includes_iff: "str_includes t s \<longleftrightarrow> (\<exists>a b. t = a @ s @ b)"
proof (induction t)
  case Nil
  then show ?case by auto
next
  case (Cons c cs)
  show ?case
  proof
    assume "str_includes (c # cs) s"
    then consider "prefix s (c # cs)" | "str_includes cs s" by auto
    then show "\<exists>a b. c # cs = a @ s @ b"
    proof cases
      case 1
      then obtain b where "c # cs = s @ b" by (auto simp: prefix_def)
      then have "c # cs = [] @ s @ b" by simp
      then show ?thesis by blast
    next
      case 2
      with Cons.IH obtain a b where "cs = a @ s @ b" by blast
      then have "c # cs = (c # a) @ s @ b" by simp
      then show ?thesis by blast
    qed
  next
    assume "\<exists>a b. c # cs = a @ s @ b"
    then obtain a b where ab: "c # cs = a @ s @ b" by blast
    show "str_includes (c # cs) s"
    proof (cases a)
      case Nil
      with ab have "prefix s (c # cs)" by (simp add: prefix_def)
      then show ?thesis by simp
    next
      case (Cons x a')
      with ab have "cs = a' @ s @ b" by simp
      with Cons.IH have "str_includes cs s" by blast
      then show ?thesis by simp
    qed
  qed
qed

subsection \<open>What the tools leave alone\<close>

lemma terminal_data: "data (snd (terminal api step command w)) = data w"
  by (simp add: terminal_def Let_def split: prod.splits sum.splits)

lemma readFiles_data: "data (snd (readFiles api step fs w)) = data w"
  by (simp add: readFiles_def split: prod.splits sum.splits)

lemma createOrUpdateFiles_step_data:
  "data (snd (createOrUpdateFiles_step api entries w)) = data w"
  by (auto simp: createOrUpdateFiles_step_def Let_def split: prod.splits sum.splits
           dest!: write_loop_data_eq)

lemma createOrUpdateFiles_summary:
  "summary (data (createOrUpdateFiles api step entries w)) = summary (data w)"
proof (cases "createOrUpdateFiles_step api entries w")
  case (Pair res w')
  then have "data w' = data w"
    using createOrUpdateFiles_step_data [of api entries w] by simp
  with Pair show ?thesis
    by (cases res) (simp_all add: createOrUpdateFiles_def)
qed

lemma invoke_tool_summary: "summary (data (invoke_tool api w c)) = summary (data w)"
  by (cases c) (simp_all add: terminal_data readFiles_data createOrUpdateFiles_summary)

lemma invoke_tools_summary: "summary (data (foldl (invoke_tool api) w calls)) = summary (data w)"
  by (induction calls arbitrary: w) (simp_all add: invoke_tool_summary)

subsection \<open>The completion detector\<close>

lemma onResponse_text:
  "onResponse (Some t) (Some d) =
     Some (if str_includes t ''<task_summary>'' then d\<lparr>summary := t\<rparr> else d)"
proof -
  have "str_includes t ''<task_summary>'' \<Longrightarrow> t \<noteq> []"
    by (cases t) simp_all
  then show ?thesis by (auto simp: onResponse_def)
qed

lemma agent_turn_no_text:
  "agent_turn api \<lparr>tool_calls = calls, lastAssistantText = None\<rparr> w = foldl (invoke_tool api) w calls"
  by (simp add: agent_turn_def onResponse_def Let_def)

lemma agent_turn_text:
  "summary (data (agent_turn api \<lparr>tool_calls = calls, lastAssistantText = Some t\<rparr> w)) =
     (if str_includes t ''<task_summary>'' then t else summary (data w))"
  by (simp add: agent_turn_def onResponse_text Let_def invoke_tools_summary)

text \<open>
  C5. When the turn's final assistant text is present and contains the sentinel
  \<^verbatim>\<open><task_summary>\<close> somewhere, the completion detector stores the whole text, markup
  included, as the summary; when the sentinel is absent the state is left as it was.
  The same holds for the summary after a whole turn that ends in that text.
\<close>

theorem completion_detector_sentinel:
  "onResponse (Some t) (Some d) =
     Some (if (\<exists>a b. t = a @ ''<task_summary>'' @ b) then d\<lparr>summary := t\<rparr> else d) \<and>
   summary (data (agent_turn api \<lparr>tool_calls = calls, lastAssistantText = Some t\<rparr> w)) =
     (if (\<exists>a b. t = a @ ''<task_summary>'' @ b) then t else summary (data w))"
proof -
  have eq: "(\<exists>a b. t = a @ ''<task_summary>'' @ b) = str_includes t ''<task_summary>''"
    by (rule str_includes_iff [symmetric])
  show ?thesis
    unfolding eq by (simp add: onResponse_text agent_turn_text)
qed

text \<open>
  C8. A turn without final assistant text does not make the completion detector fail:
  it hands the state back unchanged, the turn is just its tool calls, the summary is
  what it was before the turn, and the router decides as it would have before.
\<close>

theorem completion_detector_no_text:
  "onResponse None network = network \<and>
   agent_turn api \<lparr>tool_calls = calls, lastAssistantText = None\<rparr> w =
     foldl (invoke_tool api) w calls \<and>
   summary (data (agent_turn api \<lparr>tool_calls = calls, lastAssistantText = None\<rparr> w)) =
     summary (data w) \<and>
   router (data (agent_turn api \<lparr>tool_calls = calls, lastAssistantText = None\<rparr> w)) =
     router (data w)"
  by (simp add: onResponse_def agent_turn_no_text invoke_tools_summary router_def)

subsection \<open>The terminal tool\<close>

lemma foldl_on_event:
  "foldl on_event b es =
     \<lparr>buf_stdout = buf_stdout b @ stdout_chunks es, buf_stderr = buf_stderr b @ stderr_chunks es\<rparr>"
proof (induction es arbitrary: b)
  case Nil
  then show ?case by simp
next
  case (Cons e es)
  then show ?case by (cases e) simp_all
qed

text \<open>
  C7. The terminal tool never throws: with the step tools it always gives a text. When
  the command gets through, the text is the standard output of the command's result.
  When the command throws, the text is made of the error and of what the two stream
  callbacks had been handed until then; when the sandbox cannot be reached, both
  streams are still empty.
\<close>

theorem terminal_result:
  "(\<exists>text. fst (terminal api True command w) = Some text) \<and>
   (getSandbox api (sandbox w) = (Inr u, sb) \<and>
    commands_run api command sb = (events, Inr result, sb')
      \<longrightarrow> fst (terminal api True command w) = Some (stdout result)) \<and>
   (getSandbox api (sandbox w) = (Inr u, sb) \<and>
    commands_run api command sb = (events, Inl e, sb')
      \<longrightarrow> fst (terminal api True command w) =
            Some (''Command failed: '' @ e @ '' stdout: '' @ stdout_chunks events @
                  [CHR 0x0A] @ ''stderr: '' @ stderr_chunks events)) \<and>
   (getSandbox api (sandbox w) = (Inl e, sb)
      \<longrightarrow> fst (terminal api True command w) =
            Some (''Command failed: '' @ e @ '' stdout: '' @ [CHR 0x0A] @ ''stderr: ''))"
  by (auto simp: terminal_def Let_def command_failed_def foldl_on_event
           split: prod.splits sum.splits)

theorem terminal_result_witness:
  "fst (terminal sim_api True ''ls'' (createState (sim_fresh 5))) = Some ''app.js'' \<and>
   fst (terminal sim_api True ''false'' (createState (sim_fresh 5))) =
     Some (''Command failed: CommandExitError: exit status 1 stdout: partial'' @
           [CHR 0x0A] @ ''stderr: failed'') \<and>
   fst (terminal sim_api True ''ls'' (createState (sim_fresh 0))) =
     Some (''Command failed: Error: sandbox expired stdout: '' @ [CHR 0x0A] @ ''stderr: '')"
proof -
  have g5: "getSandbox sim_api (sandbox (createState (sim_fresh 5))) = (Inr (), sim_fresh 5)"
    by (simp add: sim_api_def sim_getSandbox_def createState_def sim_fresh_def)
  have g0: "getSandbox sim_api (sandbox (createState (sim_fresh 0))) =
              (Inl ''Error: sandbox expired'', sim_fresh 0)"
    by (simp add: sim_api_def sim_getSandbox_def createState_def sim_fresh_def)
  have ls: "commands_run sim_api ''ls'' (sim_fresh 5) =
              ([onStdout ''app.js'', onStderr ''warn''],
               Inr \<lparr>stdout = ''app.js'', stderr = ''warn'', exitCode = 0\<rparr>,
               (sim_fresh 5)\<lparr>sim_ttl := 4\<rparr>)"
    by (simp add: sim_api_def sim_run_def sim_fresh_def)
  have false: "commands_run sim_api ''false'' (sim_fresh 5) =
              ([onStdout ''partial'', onStderr ''failed''],
               Inl ''CommandExitError: exit status 1'',
               (sim_fresh 5)\<lparr>sim_ttl := 4\<rparr>)"
    by (simp add: sim_api_def sim_run_def sim_fresh_def)
  from terminal_result [of sim_api "''ls''" "createState (sim_fresh 5)" "()" "sim_fresh 5"
      "[onStdout ''app.js'', onStderr ''warn'']"
      "\<lparr>stdout = ''app.js'', stderr = ''warn'', exitCode = 0\<rparr>" "(sim_fresh 5)\<lparr>sim_ttl := 4\<rparr>"]
    g5 ls
  have a: "fst (terminal sim_api True ''ls'' (createState (sim_fresh 5))) = Some ''app.js''"
    by simp
  from terminal_result [of sim_api "''false''" "createState (sim_fresh 5)" "()" "sim_fresh 5"
      "[onStdout ''partial'', onStderr ''failed'']" _ "(sim_fresh 5)\<lparr>sim_ttl := 4\<rparr>"
      "''CommandExitError: exit status 1''"]
    g5 false
  have b: "fst (terminal sim_api True ''false'' (createState (sim_fresh 5))) =
     Some (''Command failed: CommandExitError: exit status 1 stdout: partial'' @
           [CHR 0x0A] @ ''stderr: failed'')"
    by simp
  from terminal_result [of sim_api "''ls''" "createState (sim_fresh 0)" _ "sim_fresh 0" _ _ _
      "''Error: sandbox expired''"]
    g0
  have c: "fst (terminal sim_api True ''ls'' (createState (sim_fresh 0))) =
     Some (''Command failed: Error: sandbox expired stdout: '' @ [CHR 0x0A] @ ''stderr: '')"
    by simp
  from a b c show ?thesis by blast
qed
subsection \<open>The loop\<close>

lemma router_None: "router d = None \<longleftrightarrow> summary d \<noteq> []"
  by (simp add: router_def Let_def)

lemma network_trace_done:
  "summary (data w) \<noteq> [] \<Longrightarrow> network_trace cap api agent n w = [w]"
  by (subst network_trace.simps) (simp add: router_None)

lemma network_trace_last_turn:
  "summary (data w) = [] \<Longrightarrow> cap \<le> Suc n \<Longrightarrow>
   network_trace cap api agent n w = [w, agent_turn api (agent n w) w]"
  by (subst network_trace.simps) (simp add: router_None)

lemma network_trace_next:
  "summary (data w) = [] \<Longrightarrow> \<not> cap \<le> Suc n \<Longrightarrow>
   network_trace cap api agent n w =
     w # network_trace cap api agent (Suc n) (agent_turn api (agent n w) w)"
  by (subst network_trace.simps) (simp add: router_None)

lemma network_trace_nonempty: "network_trace cap api agent n w \<noteq> []"
  by (subst network_trace.simps) simp

lemma network_trace_length:
  "length (network_trace cap api agent n w) \<le> Suc (max 1 (cap - n))"
proof (induction cap api agent n w rule: network_trace.induct)
  case (1 cap api agent counter w)
  show ?case
  proof (cases "summary (data w) = []")
    case False
    then show ?thesis by (simp add: network_trace_done)
  next
    case empty: True
    then have stay: "router (data w) \<noteq> None" using router_None [of "data w"] by blast
    show ?thesis
    proof (cases "cap \<le> Suc counter")
      case True
      with empty show ?thesis by (simp add: network_trace_last_turn)
    next
      case False
      from "1.IH" [OF stay False]
      have "length (network_trace cap api agent (Suc counter)
               (agent_turn api (agent counter w) w)) \<le> Suc (max 1 (cap - Suc counter))" .
      with empty False show ?thesis by (simp add: network_trace_next)
    qed
  qed
qed

lemma network_trace_open:
  "Suc i < length (network_trace cap api agent n w) \<Longrightarrow>
   summary (data (network_trace cap api agent n w ! i)) = []"
proof (induction cap api agent n w arbitrary: i rule: network_trace.induct)
  case (1 cap api agent counter w)
  let ?w' = "agent_turn api (agent counter w) w"
  show ?case
  proof (cases "summary (data w) = []")
    case False
    with "1.prems" show ?thesis by (simp add: network_trace_done)
  next
    case empty: True
    then have stay: "router (data w) \<noteq> None" using router_None [of "data w"] by blast
    show ?thesis
    proof (cases "cap \<le> Suc counter")
      case True
      with empty have tr: "network_trace cap api agent counter w = [w, ?w']"
        by (rule network_trace_last_turn)
      with "1.prems" have "i = 0" by simp
      with tr empty show ?thesis by simp
    next
      case False
      with empty have tr: "network_trace cap api agent counter w =
          w # network_trace cap api agent (Suc counter) ?w'"
        by (rule network_trace_next)
      show ?thesis
      proof (cases i)
        case 0
        with tr empty show ?thesis by simp
      next
        case (Suc j)
        with "1.prems" tr
        have "Suc j < length (network_trace cap api agent (Suc counter) ?w')" by simp
        with "1.IH" [OF stay False] have
          "summary (data (network_trace cap api agent (Suc counter) ?w' ! j)) = []" .
        with tr Suc show ?thesis by simp
      qed
    qed
  qed
qed

lemma network_trace_first: "network_trace cap api agent n w ! 0 = w"
  by (subst network_trace.simps) simp

lemma network_trace_step:
  "Suc i < length (network_trace cap api agent n w) \<Longrightarrow>
   network_trace cap api agent n w ! Suc i =
     agent_turn api (agent (n + i) (network_trace cap api agent n w ! i))
       (network_trace cap api agent n w ! i)"
proof (induction cap api agent n w arbitrary: i rule: network_trace.induct)
  case (1 cap api agent counter w)
  let ?w' = "agent_turn api (agent counter w) w"
  show ?case
  proof (cases "summary (data w) = []")
    case False
    with "1.prems" show ?thesis by (simp add: network_trace_done)
  next
    case empty: True
    then have stay: "router (data w) \<noteq> None" using router_None [of "data w"] by blast
    show ?thesis
    proof (cases "cap \<le> Suc counter")
      case True
      with empty have tr: "network_trace cap api agent counter w = [w, ?w']"
        by (rule network_trace_last_turn)
      with "1.prems" have "i = 0" by simp
      with tr show ?thesis by simp
    next
      case False
      with empty have tr: "network_trace cap api agent counter w =
          w # network_trace cap api agent (Suc counter) ?w'"
        by (rule network_trace_next)
      show ?thesis
      proof (cases i)
        case 0
        with tr show ?thesis by (simp add: network_trace_first)
      next
        case (Suc j)
        with "1.prems" tr
        have "Suc j < length (network_trace cap api agent (Suc counter) ?w')" by simp
        from "1.IH" [OF stay False this] tr Suc show ?thesis by simp
      qed
    qed
  qed
qed

lemma network_trace_stops_early:
  "n < cap \<Longrightarrow> length (network_trace cap api agent n w) \<le> cap - n \<Longrightarrow>
   summary (data (last (network_trace cap api agent n w))) \<noteq> []"
proof (induction cap api agent n w rule: network_trace.induct)
  case (1 cap api agent counter w)
  let ?w' = "agent_turn api (agent counter w) w"
  show ?case
  proof (cases "summary (data w) = []")
    case False
    then show ?thesis by (simp add: network_trace_done)
  next
    case empty: True
    then have stay: "router (data w) \<noteq> None" using router_None [of "data w"] by blast
    show ?thesis
    proof (cases "cap \<le> Suc counter")
      case True
      with empty have "network_trace cap api agent counter w = [w, ?w']"
        by (rule network_trace_last_turn)
      with True "1.prems" show ?thesis by simp
    next
      case False
      with empty have tr: "network_trace cap api agent counter w =
          w # network_trace cap api agent (Suc counter) ?w'"
        by (rule network_trace_next)
      from False have lt: "Suc counter < cap" by simp
      from tr "1.prems" False
      have "length (network_trace cap api agent (Suc counter) ?w') \<le> cap - Suc counter"
        by simp
      from "1.IH" [OF stay False lt this] tr show ?thesis
        by (simp add: network_trace_nonempty)
    qed
  qed
qed

lemma agent_turn_quiet:
  assumes "\<And>t. lastAssistantText tn = Some t \<Longrightarrow> \<not> str_includes t ''<task_summary>''"
  shows "summary (data (agent_turn api tn w)) = summary (data w)"
proof (cases "lastAssistantText tn")
  case None
  then show ?thesis
    by (simp add: agent_turn_def onResponse_def Let_def invoke_tools_summary)
next
  case (Some t)
  with assms have "\<not> str_includes t ''<task_summary>''" by simp
  with Some show ?thesis
    by (simp add: agent_turn_def onResponse_text Let_def invoke_tools_summary)
qed

lemma network_trace_quiet:
  "\<forall>n w t. lastAssistantText (agent n w) = Some t \<longrightarrow> \<not> str_includes t ''<task_summary>'' \<Longrightarrow>
   summary (data w) = [] \<Longrightarrow> n < cap \<Longrightarrow>
   length (network_trace cap api agent n w) = Suc (cap - n) \<and>
   summary (data (last (network_trace cap api agent n w))) = []"
proof (induction cap api agent n w rule: network_trace.induct)
  case (1 cap api agent counter w)
  let ?w' = "agent_turn api (agent counter w) w"
  note quiet = "1.prems"(1)
  note empty = "1.prems"(2)
  from empty have stay: "router (data w) \<noteq> None" using router_None [of "data w"] by blast
  have "summary (data ?w') = summary (data w)"
  proof (rule agent_turn_quiet)
    fix t
    assume "lastAssistantText (agent counter w) = Some t"
    with quiet show "\<not> str_includes t ''<task_summary>''" by blast
  qed
  with empty have same: "summary (data ?w') = []" by simp
  show ?case
  proof (cases "cap \<le> Suc counter")
    case True
    with empty have tr: "network_trace cap api agent counter w = [w, ?w']"
      by (rule network_trace_last_turn)
    from True "1.prems" have "cap - counter = 1" by simp
    with tr same show ?thesis by simp
  next
    case False
    with empty have tr: "network_trace cap api agent counter w =
        w # network_trace cap api agent (Suc counter) ?w'"
      by (rule network_trace_next)
    from False have lt: "Suc counter < cap" by simp
    from "1.IH" [OF stay False quiet same lt]
    have "length (network_trace cap api agent (Suc counter) ?w') = Suc (cap - Suc counter) \<and>
          summary (data (last (network_trace cap api agent (Suc counter) ?w'))) = []" .
    with tr False show ?thesis
      by (simp add: network_trace_nonempty Suc_diff_Suc)
  qed
qed

lemma agent_turn_idle: "agent_turn api (idle_agent n w) w = w"
  by (simp add: idle_agent_def agent_turn_no_text)

lemma network_trace_idle: "last (network_trace cap api idle_agent n w) = w"
proof (induction cap api "idle_agent :: nat \<Rightarrow> 'a world \<Rightarrow> turn" n w rule: network_trace.induct)
  case (1 cap api counter w)
  show ?case
  proof (cases "summary (data w) = []")
    case False
    then show ?thesis by (simp add: network_trace_done)
  next
    case empty: True
    then have stay: "router (data w) \<noteq> None" using router_None [of "data w"] by blast
    show ?thesis
    proof (cases "cap \<le> Suc counter")
      case True
      with empty show ?thesis by (simp add: network_trace_last_turn agent_turn_idle)
    next
      case False
      from "1.hyps" [OF stay False] empty False show ?thesis
        by (simp add: network_trace_next network_trace_nonempty agent_turn_idle)
    qed
  qed
qed

lemma network_run_idle: "network_run cap api idle_agent w = w"
  by (simp add: network_run_def network_trace_idle)

lemma todo_trace:
  "network_trace maxIter api todo_agent 0 (createState sb) =
     [createState sb,
      createOrUpdateFiles api True [(''app.js'', ''render()'')] (createState sb),
      (createOrUpdateFiles api True [(''app.js'', ''render()'')] (createState sb))
        \<lparr>data := (data (createOrUpdateFiles api True [(''app.js'', ''render()'')] (createState sb)))
           \<lparr>summary := ''<task_summary>Built a todo app</task_summary>''\<rparr>\<rparr>]"
proof -
  let ?w0 = "createState sb :: 'a world"
  let ?w1 = "createOrUpdateFiles api True [(''app.js'', ''render()'')] ?w0"
  let ?w2 = "?w1\<lparr>data := (data ?w1)\<lparr>summary := ''<task_summary>Built a todo app</task_summary>''\<rparr>\<rparr>"
  have d0: "summary (data ?w0) = []" by (simp add: createState_def)
  have d1: "summary (data ?w1) = []" by (simp add: createOrUpdateFiles_summary d0)
  have t0: "agent_turn api (todo_agent 0 ?w0) ?w0 = ?w1"
    by (simp add: todo_agent_def agent_turn_no_text)
  have t1: "agent_turn api (todo_agent (Suc 0) ?w1) ?w1 = ?w2"
    by (simp add: todo_agent_def agent_turn_def onResponse_text Let_def)
  have "network_trace maxIter api todo_agent 0 ?w0 =
          ?w0 # network_trace maxIter api todo_agent (Suc 0) ?w1"
    using network_trace_next [of ?w0 maxIter 0 api todo_agent] d0 t0
    by (simp add: maxIter_def)
  also have "network_trace maxIter api todo_agent (Suc 0) ?w1 =
          ?w1 # network_trace maxIter api todo_agent (Suc (Suc 0)) ?w2"
    using network_trace_next [of ?w1 maxIter "Suc 0" api todo_agent] d1 t1
    by (simp add: maxIter_def)
  also have "network_trace maxIter api todo_agent (Suc (Suc 0)) ?w2 = [?w2]"
    by (rule network_trace_done) simp
  finally show ?thesis .
qed

lemma sim_write_notes:
  "createOrUpdateFiles sim_api True [(''notes.txt'', ''draft'')] (createState (sim_fresh 20)) =
     \<lparr>data = \<lparr>summary = [], files = [(''notes.txt'', ''draft'')]\<rparr>,
      sandbox = (sim_fresh 20)\<lparr>sim_fs := [(''notes.txt'', ''draft'')], sim_ttl := 19\<rparr>\<rparr>"
  by (simp add: createOrUpdateFiles_def createOrUpdateFiles_step_def createState_def
        assign_def array_index_def is_digit_def
        sim_api_def sim_getSandbox_def sim_write_def sim_fresh_def)

text \<open>
  C4. The loop of one run takes at most 15 turns. It starts in the fresh state; each of
  its steps is one turn of the agent, the turn the agent gives for the number of turns
  taken so far and the state reached; and the run ends in the state after the last of
  them. It ends before the 15th turn only with a summary. With an agent whose texts
  never contain the sentinel it takes exactly 15 turns and stops there: the run ends in
  a state, its summary is still empty, and that state is the one the function treats as
  a failure.
\<close>

theorem loop_bounded_by_cap:
  "turns_taken maxIter api agent (createState sb) \<le> 15 \<and>
   network_trace maxIter api agent 0 (createState sb) ! 0 = createState sb \<and>
   (\<forall>i. i < turns_taken maxIter api agent (createState sb) \<longrightarrow>
      network_trace maxIter api agent 0 (createState sb) ! Suc i =
        agent_turn api (agent i (network_trace maxIter api agent 0 (createState sb) ! i))
          (network_trace maxIter api agent 0 (createState sb) ! i)) \<and>
   network_run maxIter api agent (createState sb) =
     network_trace maxIter api agent 0 (createState sb) !
       turns_taken maxIter api agent (createState sb) \<and>
   (turns_taken maxIter api agent (createState sb) < 15 \<longrightarrow>
      summary (data (network_run maxIter api agent (createState sb))) \<noteq> []) \<and>
   ((\<forall>n w t. lastAssistantText (agent n w) = Some t \<longrightarrow>
              \<not> (\<exists>a b. t = a @ ''<task_summary>'' @ b)) \<longrightarrow>
      turns_taken maxIter api agent (createState sb) = 15 \<and>
      summary (data (network_run maxIter api agent (createState sb))) = [] \<and>
      isError (network_run maxIter api agent (createState sb)))"
proof -
  let ?tr = "network_trace maxIter api agent 0 (createState sb)"
  let ?turns = "turns_taken maxIter api agent (createState sb)"
  let ?final = "network_run maxIter api agent (createState sb)"
  have ne: "?tr \<noteq> []" by (rule network_trace_nonempty)
  then have len: "length ?tr = Suc ?turns" by (simp add: turns_taken_def)
  have "length ?tr \<le> Suc (max 1 (maxIter - 0))" by (rule network_trace_length)
  with len have bound: "?turns \<le> 15" by (simp add: maxIter_def)
  have first: "?tr ! 0 = createState sb" by (rule network_trace_first)
  have steps: "\<forall>i. i < ?turns \<longrightarrow>
      ?tr ! Suc i = agent_turn api (agent i (?tr ! i)) (?tr ! i)"
  proof (intro allI impI)
    fix i
    assume "i < ?turns"
    with len have "Suc i < length ?tr" by simp
    from network_trace_step [OF this]
    show "?tr ! Suc i = agent_turn api (agent i (?tr ! i)) (?tr ! i)" by simp
  qed
  have final: "?final = ?tr ! ?turns"
    using ne by (simp add: network_run_def turns_taken_def last_conv_nth)
  have early: "?turns < 15 \<longrightarrow> summary (data ?final) \<noteq> []"
  proof
    assume "?turns < 15"
    with len have "length ?tr \<le> maxIter - 0" by (simp add: maxIter_def)
    moreover have "(0::nat) < maxIter" by (simp add: maxIter_def)
    ultimately have "summary (data (last ?tr)) \<noteq> []"
      by (rule network_trace_stops_early [rotated])
    then show "summary (data ?final) \<noteq> []" by (simp add: network_run_def)
  qed
  have never: "(\<forall>n w t. lastAssistantText (agent n w) = Some t \<longrightarrow>
              \<not> (\<exists>a b. t = a @ ''<task_summary>'' @ b)) \<longrightarrow>
      ?turns = 15 \<and> summary (data ?final) = [] \<and> isError ?final"
  proof
    assume "\<forall>n w t. lastAssistantText (agent n w) = Some t \<longrightarrow>
              \<not> (\<exists>a b. t = a @ ''<task_summary>'' @ b)"
    then have quiet: "\<forall>n w t. lastAssistantText (agent n w) = Some t \<longrightarrow>
              \<not> str_includes t ''<task_summary>''"
      by (simp only: str_includes_iff)
    have start: "summary (data (createState sb)) = []" by (simp add: createState_def)
    have "(0::nat) < maxIter" by (simp add: maxIter_def)
    from network_trace_quiet [OF quiet start this]
    have l: "length ?tr = Suc (maxIter - 0)" and fin: "summary (data (last ?tr)) = []"
      by simp_all
    from l len have "?turns = 15" by (simp add: maxIter_def)
    moreover from fin have "summary (data ?final) = []" by (simp add: network_run_def)
    ultimately show "?turns = 15 \<and> summary (data ?final) = [] \<and> isError ?final"
      by (simp add: isError_def)
  qed
  from bound first steps final early never show ?thesis by blast
qed

theorem loop_bounded_by_cap_witness:
  "turns_taken maxIter sim_api busy_agent (createState (sim_fresh 20)) = 15 \<and>
   summary (data (network_run maxIter sim_api busy_agent (createState (sim_fresh 20)))) = [] \<and>
   isError (network_run maxIter sim_api busy_agent (createState (sim_fresh 20))) \<and>
   state_files (network_trace maxIter sim_api busy_agent 0 (createState (sim_fresh 20)) ! 1) =
     [(''notes.txt'', ''draft'')] \<and>
   sim_ttl (sandbox (network_trace maxIter sim_api busy_agent 0 (createState (sim_fresh 20)) ! 1)) =
     19"
proof -
  let ?w0 = "createState (sim_fresh 20)"
  let ?tr = "network_trace maxIter sim_api busy_agent 0 ?w0"
  have "\<not> str_includes ''Still working.'' ''<task_summary>''" by simp
  then have still: "\<not> (\<exists>a b. ''Still working.'' = a @ ''<task_summary>'' @ b)"
    unfolding str_includes_iff .
  have quiet: "\<forall>n (w :: sim_sandbox world) t. lastAssistantText (busy_agent n w) = Some t \<longrightarrow>
              \<not> (\<exists>a b. t = a @ ''<task_summary>'' @ b)"
  proof (intro allI impI)
    fix n and w :: "sim_sandbox world" and t
    assume "lastAssistantText (busy_agent n w) = Some t"
    then have eq: "t = ''Still working.''" by (simp add: busy_agent_def)
    show "\<not> (\<exists>a b. t = a @ ''<task_summary>'' @ b)" unfolding eq by (rule still)
  qed
  note inst = loop_bounded_by_cap [of sim_api busy_agent "sim_fresh 20"]
  from inst quiet
  have run: "turns_taken maxIter sim_api busy_agent ?w0 = 15 \<and>
             summary (data (network_run maxIter sim_api busy_agent ?w0)) = [] \<and>
             isError (network_run maxIter sim_api busy_agent ?w0)"
    by blast
  from inst have "?tr ! 0 = ?w0" by blast
  moreover from inst run have "?tr ! Suc 0 = agent_turn sim_api (busy_agent 0 (?tr ! 0)) (?tr ! 0)"
    by simp
  ultimately have "?tr ! 1 = agent_turn sim_api (busy_agent 0 ?w0) ?w0" by simp
  also have "\<dots> = (createOrUpdateFiles sim_api True [(''notes.txt'', ''draft'')] ?w0)"
    by (simp add: busy_agent_def agent_turn_def onResponse_text Let_def)
  finally have "?tr ! 1 =
     \<lparr>data = \<lparr>summary = [], files = [(''notes.txt'', ''draft'')]\<rparr>,
      sandbox = (sim_fresh 20)\<lparr>sim_fs := [(''notes.txt'', ''draft'')], sim_ttl := 19\<rparr>\<rparr>"
    by (simp only: sim_write_notes)
  then have "state_files (?tr ! 1) = [(''notes.txt'', ''draft'')] \<and>
             sim_ttl (sandbox (?tr ! 1)) = 19"
    by (simp add: state_files_def)
  with run show ?thesis by blast
qed
subsection \<open>The summary over a run\<close>

lemma agent_turn_writes_summary:
  "summary (data (agent_turn api tn w)) \<noteq> summary (data w) \<Longrightarrow>
   lastAssistantText tn = Some (summary (data (agent_turn api tn w))) \<and>
   summary (data (agent_turn api tn w)) \<noteq> []"
proof (cases "lastAssistantText tn")
  case None
  assume changed: "summary (data (agent_turn api tn w)) \<noteq> summary (data w)"
  from None have "summary (data (agent_turn api tn w)) = summary (data w)"
    by (intro agent_turn_quiet) simp
  with changed show ?thesis by simp
next
  case (Some t)
  assume changed: "summary (data (agent_turn api tn w)) \<noteq> summary (data w)"
  have d: "summary (data (agent_turn api tn w)) =
        (if str_includes t ''<task_summary>'' then t else summary (data w))"
    using Some by (simp add: agent_turn_def onResponse_text Let_def invoke_tools_summary)
  with changed have inc: "str_includes t ''<task_summary>''" by (auto split: if_splits)
  then have "t \<noteq> []" by (cases t) simp_all
  with d inc Some show ?thesis by simp
qed

text \<open>
  C2. In every run the summary goes from empty to non-empty at most once. It starts
  empty; no tool call touches it; a turn that changes it ends in an assistant text and
  the new summary is that text, which is not empty; at every turn boundary but the last
  one of the run the summary is still empty, so that a summary, once there, is the same
  at every later boundary of the run.
\<close>

theorem summary_set_at_most_once:
  "summary (data (createState sb)) = [] \<and>
   summary (data (invoke_tool api w c)) = summary (data w) \<and>
   (summary (data (agent_turn api tn w)) \<noteq> summary (data w) \<longrightarrow>
      lastAssistantText tn = Some (summary (data (agent_turn api tn w))) \<and>
      summary (data (agent_turn api tn w)) \<noteq> []) \<and>
   (\<forall>i. Suc i < length (network_trace cap api agent 0 (createState sb)) \<longrightarrow>
      summary (data (network_trace cap api agent 0 (createState sb) ! i)) = []) \<and>
   (\<forall>i j. i \<le> j \<and> j < length (network_trace cap api agent 0 (createState sb)) \<and>
      summary (data (network_trace cap api agent 0 (createState sb) ! i)) \<noteq> [] \<longrightarrow>
      summary (data (network_trace cap api agent 0 (createState sb) ! j)) =
      summary (data (network_trace cap api agent 0 (createState sb) ! i)))"
proof -
  let ?tr = "network_trace cap api agent 0 (createState sb)"
  have a: "summary (data (createState sb)) = []" by (simp add: createState_def)
  have b: "summary (data (invoke_tool api w c)) = summary (data w)"
    by (simp add: invoke_tool_summary)
  have c: "summary (data (agent_turn api tn w)) \<noteq> summary (data w) \<longrightarrow>
      lastAssistantText tn = Some (summary (data (agent_turn api tn w))) \<and>
      summary (data (agent_turn api tn w)) \<noteq> []"
    using agent_turn_writes_summary [of api tn w] by blast
  have d: "\<forall>i. Suc i < length ?tr \<longrightarrow> summary (data (?tr ! i)) = []"
    using network_trace_open [of _ cap api agent 0 "createState sb"] by blast
  have e: "\<forall>i j. i \<le> j \<and> j < length ?tr \<and> summary (data (?tr ! i)) \<noteq> [] \<longrightarrow>
      summary (data (?tr ! j)) = summary (data (?tr ! i))"
  proof (intro allI impI)
    fix i j
    assume h: "i \<le> j \<and> j < length ?tr \<and> summary (data (?tr ! i)) \<noteq> []"
    with d have "\<not> Suc i < length ?tr" by blast
    with h have "j = i" by simp
    then show "summary (data (?tr ! j)) = summary (data (?tr ! i))" by simp
  qed
  from a b c d e show ?thesis by blast
qed

theorem summary_set_at_most_once_witness:
  "length (network_trace maxIter sim_api todo_agent 0 (createState (sim_fresh 5))) = 3 \<and>
   summary (data (network_trace maxIter sim_api todo_agent 0 (createState (sim_fresh 5)) ! 0)) = [] \<and>
   summary (data (network_trace maxIter sim_api todo_agent 0 (createState (sim_fresh 5)) ! 1)) = [] \<and>
   summary (data (network_trace maxIter sim_api todo_agent 0 (createState (sim_fresh 5)) ! 2)) =
     ''<task_summary>Built a todo app</task_summary>''"
proof -
  let ?tr = "network_trace maxIter sim_api todo_agent 0 (createState (sim_fresh 5))"
  have len: "length ?tr = 3" by (simp add: todo_trace)
  have last: "summary (data (?tr ! 2)) = ''<task_summary>Built a todo app</task_summary>''"
    by (simp add: todo_trace)
  from summary_set_at_most_once [of "sim_fresh 5" sim_api _ _ _ maxIter todo_agent]
  have "\<forall>i. Suc i < length ?tr \<longrightarrow> summary (data (?tr ! i)) = []" by blast
  with len have "summary (data (?tr ! 0)) = []" and "summary (data (?tr ! 1)) = []"
    by simp_all
  with len last show ?thesis by blast
qed

subsection \<open>The outcome of a run\<close>

text \<open>
  C3. The run counts as failed exactly when the summary is empty or no file is in the
  state, that is, as successful exactly when both are there. For a failed run the record
  handed to the store is the fixed one: role ASSISTANT, type ERROR, the fixed text, no
  fragment; it is made from the project id alone, so neither the summary nor the files
  of the run are in it. A run that gets to its end has stored that record if it failed,
  and a RESULT record with a fragment holding the files otherwise; the record it gives
  back as stored is one that was handed to the store and that the store took.
\<close>

theorem failed_run_stores_fixed_error:
  "(isError result \<longleftrightarrow> \<not> (summary (data result) \<noteq> [] \<and> state_files result \<noteq> [])) \<and>
   (isError result \<longrightarrow>
      save_result pid (isError result) responseOutput fragmentTitleOutput u (state_files result) =
        Inr \<lparr>projectId = pid, msg_content = ''Something went wrong. Please try again.'',
             msg_role = ASSISTANT, msg_type = ERROR, fragment = None\<rparr>) \<and>
   (codeAgentFunction api ext pid sb0 = Inr (saved, ret) \<longrightarrow>
      (isError (network_run maxIter api (codeAgent_run ext) (createState sb0)) \<longrightarrow>
         saved = \<lparr>projectId = pid, msg_content = ''Something went wrong. Please try again.'',
                  msg_role = ASSISTANT, msg_type = ERROR, fragment = None\<rparr>) \<and>
      (\<not> isError (network_run maxIter api (codeAgent_run ext) (createState sb0)) \<longrightarrow>
         msg_role saved = ASSISTANT \<and> msg_type saved = RESULT \<and>
         (\<exists>f. fragment saved = Some f \<and>
              frag_files f =
                state_files (network_run maxIter api (codeAgent_run ext) (createState sb0))))) \<and>
   (codeAgentFunction api ext pid sb0 = Inr (saved, ret) \<longrightarrow> message_create ext saved = Inr ())"
proof (intro conjI)
  show "isError result \<longleftrightarrow> \<not> (summary (data result) \<noteq> [] \<and> state_files result \<noteq> [])"
    by (simp add: isError_def)
  show "isError result \<longrightarrow>
      save_result pid (isError result) responseOutput fragmentTitleOutput u (state_files result) =
        Inr \<lparr>projectId = pid, msg_content = ''Something went wrong. Please try again.'',
             msg_role = ASSISTANT, msg_type = ERROR, fragment = None\<rparr>"
    by (simp add: save_result_def)
  show "codeAgentFunction api ext pid sb0 = Inr (saved, ret) \<longrightarrow>
      (isError (network_run maxIter api (codeAgent_run ext) (createState sb0)) \<longrightarrow>
         saved = \<lparr>projectId = pid, msg_content = ''Something went wrong. Please try again.'',
                  msg_role = ASSISTANT, msg_type = ERROR, fragment = None\<rparr>) \<and>
      (\<not> isError (network_run maxIter api (codeAgent_run ext) (createState sb0)) \<longrightarrow>
         msg_role saved = ASSISTANT \<and> msg_type saved = RESULT \<and>
         (\<exists>f. fragment saved = Some f \<and>
              frag_files f =
                state_files (network_run maxIter api (codeAgent_run ext) (createState sb0))))"
    by (auto simp: codeAgentFunction_def Let_def save_result_def
             split: sum.splits prod.splits if_splits)
  show "codeAgentFunction api ext pid sb0 = Inr (saved, ret) \<longrightarrow> message_create ext saved = Inr ()"
    by (auto simp: codeAgentFunction_def Let_def split: sum.splits prod.splits)
qed

theorem failed_run_stores_fixed_error_witness:
  "isError (network_run maxIter sim_api (codeAgent_run idle_collaborators)
              (createState (sim_fresh 5))) \<and>
   codeAgentFunction sim_api idle_collaborators ''p1'' (sim_fresh 5) =
     Inr (\<lparr>projectId = ''p1'', msg_content = ''Something went wrong. Please try again.'',
            msg_role = ASSISTANT, msg_type = ERROR, fragment = None\<rparr>,
          \<lparr>url = ''http://3000-sandbox.example'', title = ''Fragment'', ret_files = [],
            ret_summary = []\<rparr>)"
proof -
  let ?final = "network_run maxIter sim_api (codeAgent_run idle_collaborators)
                  (createState (sim_fresh 5))"
  have fin: "?final = createState (sim_fresh 5)"
    by (simp add: idle_collaborators_def network_run_idle)
  have err: "isError ?final"
    unfolding fin by (simp add: isError_def createState_def state_files_def)
  have "\<exists>saved. codeAgentFunction sim_api idle_collaborators ''p1'' (sim_fresh 5) =
       Inr (saved, \<lparr>url = ''http://3000-sandbox.example'', title = ''Fragment'', ret_files = [],
                    ret_summary = []\<rparr>)"
    unfolding codeAgentFunction_def fin
    by (simp add: Let_def isError_def createState_def state_files_def
          idle_collaborators_def reply_with_def accept_message_def save_result_def
          sim_api_def sim_getSandbox_def sim_fresh_def)
  then obtain saved where run:
    "codeAgentFunction sim_api idle_collaborators ''p1'' (sim_fresh 5) =
       Inr (saved, \<lparr>url = ''http://3000-sandbox.example'', title = ''Fragment'', ret_files = [],
                    ret_summary = []\<rparr>)"
    by blast
  from failed_run_stores_fixed_error [of ?final "''p1''" _ _ _ sim_api idle_collaborators "sim_fresh 5" saved]
    run err
  have "saved = \<lparr>projectId = ''p1'', msg_content = ''Something went wrong. Please try again.'',
            msg_role = ASSISTANT, msg_type = ERROR, fragment = None\<rparr>"
    by blast
  with run err show ?thesis by simp
qed

lemma sim_write_app:
  "createOrUpdateFiles sim_api True [(''app.js'', ''render()'')] (createState (sim_fresh 5)) =
     \<lparr>data = \<lparr>summary = [], files = [(''app.js'', ''render()'')]\<rparr>,
      sandbox = (sim_fresh 5)\<lparr>sim_fs := [(''app.js'', ''render()'')], sim_ttl := 4\<rparr>\<rparr>"
  by (simp add: createOrUpdateFiles_def createOrUpdateFiles_step_def createState_def
        assign_def array_index_def is_digit_def
        sim_api_def sim_getSandbox_def sim_write_def sim_fresh_def)

text \<open>
  C10. Whenever the function gets to its return statement, the title it returns is the
  constant \<^verbatim>\<open>Fragment\<close>, whatever the title generator produced. The generated title is
  in the fragment of the stored record only, and a failed run stores no fragment.
\<close>

theorem returned_title_is_constant:
  "codeAgentFunction api ext pid sb0 = Inr (saved, ret) \<Longrightarrow>
   title ret = ''Fragment'' \<and>
   (isError (network_run maxIter api (codeAgent_run ext) (createState sb0)) \<longrightarrow>
      fragment saved = None) \<and>
   (\<forall>f. fragment saved = Some f \<longrightarrow>
      (\<exists>out. fragmentTitleGenerator_run ext
                (summary (data (network_run maxIter api (codeAgent_run ext) (createState sb0)))) =
                Inr out \<and>
             generateFragmentTitle out = Inr (frag_title f)))"
  by (auto simp: codeAgentFunction_def Let_def save_result_def
           split: sum.splits prod.splits if_splits)

theorem returned_title_is_constant_witness:
  "codeAgentFunction sim_api todo_collaborators ''p1'' (sim_fresh 5) =
     Inr (\<lparr>projectId = ''p1'', msg_content = ''I built a todo app.'',
            msg_role = ASSISTANT, msg_type = RESULT,
            fragment = Some \<lparr>sandboxUrl = ''http://3000-sandbox.example'',
                             frag_title = ''Todo App'',
                             frag_files = [(''app.js'', ''render()'')]\<rparr>\<rparr>,
          \<lparr>url = ''http://3000-sandbox.example'', title = ''Fragment'',
            ret_files = [(''app.js'', ''render()'')],
            ret_summary = ''<task_summary>Built a todo app</task_summary>''\<rparr>)"
proof -
  let ?saved = "\<lparr>projectId = ''p1'', msg_content = ''I built a todo app.'',
            msg_role = ASSISTANT, msg_type = RESULT,
            fragment = Some \<lparr>sandboxUrl = ''http://3000-sandbox.example'',
                             frag_title = ''Todo App'',
                             frag_files = [(''app.js'', ''render()'')]\<rparr>\<rparr>"
  have fin: "network_run maxIter sim_api (codeAgent_run todo_collaborators)
               (createState (sim_fresh 5)) =
             \<lparr>data = \<lparr>summary = ''<task_summary>Built a todo app</task_summary>'',
                     files = [(''app.js'', ''render()'')]\<rparr>,
              sandbox = (sim_fresh 5)\<lparr>sim_fs := [(''app.js'', ''render()'')], sim_ttl := 4\<rparr>\<rparr>"
    by (simp add: todo_collaborators_def network_run_def todo_trace sim_write_app)
  have "\<exists>ret. codeAgentFunction sim_api todo_collaborators ''p1'' (sim_fresh 5) =
            Inr (?saved, ret) \<and>
          url ret = ''http://3000-sandbox.example'' \<and>
          ret_files ret = [(''app.js'', ''render()'')] \<and>
          ret_summary ret = ''<task_summary>Built a todo app</task_summary>''"
    unfolding codeAgentFunction_def fin
    by (simp add: Let_def isError_def state_files_def
          todo_collaborators_def reply_with_def accept_message_def save_result_def
          generateResponse_def generateFragmentTitle_def
          sim_api_def sim_getSandbox_def sim_fresh_def)
  then obtain ret where run:
    "codeAgentFunction sim_api todo_collaborators ''p1'' (sim_fresh 5) = Inr (?saved, ret)"
    and ret: "url ret = ''http://3000-sandbox.example'' \<and>
              ret_files ret = [(''app.js'', ''render()'')] \<and>
              ret_summary ret = ''<task_summary>Built a todo app</task_summary>''"
    by blast
  from returned_title_is_constant [OF run] have "title ret = ''Fragment''" by blast
  with run ret show ?thesis by (cases ret) simp
qed
subsection \<open>Files written over a run\<close>


























subsection \<open>Writing a file and reading it back\<close>













end
